theory Spec2Isabelle
  imports Main
begin

section \<open>pycurlbrowser: canned responses, navigation and form submission\<close>

text \<open>
  A shallow embedding of \<^verbatim>\<open>src/pycurlbrowser/browser.py\<close> (Python 2). Exceptions are
  values of \<open>py_error\<close> and a function that may raise returns \<open>py_error + 'a\<close>; the
  methods of \<^verbatim>\<open>Browser\<close> take the browser state and return it updated, also
  when they raise.
\<close>

subsection \<open>Exceptions\<close>

text \<open>
  A canned response is stored under the tuple \<^verbatim>\<open>(url, method, data)\<close>, where
  \<^verbatim>\<open>data\<close> is the encoded payload or \<^verbatim>\<open>None\<close>.
\<close>

type_synonym request_key = "string \<times> string \<times> string option"

datatype py_arg = Text string | KeyArg request_key

datatype py_error =
    KeyError py_arg
  | IndexError string
  | AttributeError string
  | TypeError string
  | LookupError request_key "request_key list"
  | AssertionError string
  | PycurlError nat string
  | ParserError string
  | Exception string

subsection \<open>Python dictionaries and strings\<close>

text \<open>
  A dictionary is an association list with distinct keys, listed in the order in which
  the dictionary iterates. \<^verbatim>\<open>d[k]\<close> raises \<^verbatim>\<open>KeyError\<close> on a missing key;
  \<^verbatim>\<open>d[k] = v\<close> overwrites or inserts.
\<close>

fun dict_set :: "'k \<Rightarrow> 'v \<Rightarrow> ('k \<times> 'v) list \<Rightarrow> ('k \<times> 'v) list" where
  "dict_set k v [] = [(k, v)]"
| "dict_set k v (p # ps) = (if fst p = k then (k, v) # ps else p # dict_set k v ps)"

text \<open>
  \<^verbatim>\<open>s.split(sep)\<close> with an explicit separator: every occurrence of the separator cuts,
  empty pieces are kept, and the empty string splits into one empty piece.
\<close>

fun split_acc :: "char \<Rightarrow> string \<Rightarrow> string \<Rightarrow> string list" where
  "split_acc sep acc [] = [rev acc]"
| "split_acc sep acc (c # cs) =
     (if c = sep then rev acc # split_acc sep [] cs else split_acc sep (c # acc) cs)"

definition py_split :: "char \<Rightarrow> string \<Rightarrow> string list" where
  "py_split sep s = split_acc sep [] s"

subsection \<open>What the program takes from outside\<close>

text \<open>
  One transport attempt (\<^verbatim>\<open>pycurl.Curl.perform\<close>): the bytes the write callback
  received, the error raised if any, the response code and effective URL that
  \<^verbatim>\<open>getinfo\<close> reports afterwards, and the time the attempt took.
\<close>

record attempt =
  failure :: "(nat \<times> string) option"
  written :: string
  att_code :: nat
  att_url :: string
  elapsed :: int

text \<open>
  The parsed page, as the source reads it through \<^verbatim>\<open>lxml.html\<close>. Of a form
  element the source uses: its method (always a string, \<^verbatim>\<open>GET\<close> by default), its
  action (absent when the element has none), its attributes \<^verbatim>\<open>name\<close>,
  \<^verbatim>\<open>id\<close> and \<^verbatim>\<open>class\<close>, the items of \<^verbatim>\<open>form.fields\<close>, its
  \<^verbatim>\<open>select\<close> elements with their options, and its \<^verbatim>\<open>input\<close> elements of
  type submit, both in document order. \<^verbatim>\<open>form.fields\<close> has one item for every named
  \<^verbatim>\<open>input\<close>, \<^verbatim>\<open>select\<close> and \<^verbatim>\<open>textarea\<close> of the form, inputs of type
  submit included; the value of an element without value is \<^verbatim>\<open>None\<close>.
\<close>

record submit_input =
  input_name :: "string option"
  input_value :: "string option"

record option_elem =
  option_text :: "string option"
  option_value :: "string option"

record select_elem =
  select_name :: "string option"
  select_options :: "option_elem list"

record form =
  form_method :: string
  form_action :: "string option"
  form_name :: "string option"
  form_id :: "string option"
  form_class :: "string option"
  form_inputs :: "(string \<times> string option) list"
  form_selects :: "select_elem list"
  submit_inputs :: "submit_input list"

record page =
  page_forms :: "form list"

text \<open>
  The collaborators the source calls but does not define:
  \<^item> \<open>dict_order\<close>: the order in which a Python 2 dictionary of strings iterates, as a
    function of its items in insertion order (the language fixes no order);
  \<^item> \<open>urlencode\<close>: \<^verbatim>\<open>urllib.urlencode\<close> on a mapping;
  \<^item> \<open>transport\<close>: the outcome of the \<open>k\<close>-th call of \<^verbatim>\<open>perform\<close> of the session;
  \<^item> \<open>fromstring\<close>: \<^verbatim>\<open>lxml.html.fromstring\<close>, which raises on a source it cannot
    parse (the empty one, for instance);
  \<^item> \<open>make_links_absolute\<close>: the method of the parsed tree, given the base URL.
\<close>

record env =
  dict_order :: "(string \<times> nat) list \<Rightarrow> (string \<times> nat) list"
  urlencode :: "(string \<times> string option) list \<Rightarrow> string"
  transport :: "nat \<Rightarrow> attempt"
  fromstring :: "string \<Rightarrow> py_error + page"
  make_links_absolute :: "string \<Rightarrow> page \<Rightarrow> page"

definition order_ok :: "env \<Rightarrow> bool" where
  "order_ok e = (\<forall>xs. set (dict_order e xs) = set xs)"

subsection \<open>Best-fit matching of canned responses\<close>

definition setify :: "string \<Rightarrow> string set" where
  "setify s = set (py_split CHR ''&'' s)"

text \<open>
  \<^verbatim>\<open>post_data_present(d_ref, d_in)\<close>. A reference payload that is \<^verbatim>\<open>None\<close> has no
  \<^verbatim>\<open>split\<close>: the call raises \<^verbatim>\<open>AttributeError\<close>.
\<close>

definition post_data_present :: "string option \<Rightarrow> string \<Rightarrow> py_error + bool" where
  "post_data_present d_ref d_in =
     (case d_ref of
        None \<Rightarrow> Inl (AttributeError ''NoneType object has no attribute split'')
      | Some r \<Rightarrow> Inr (card (setify r - setify d_in) = 0))"

definition len_diff :: "string \<Rightarrow> string \<Rightarrow> nat" where
  "len_diff d d_in = nat \<bar>int (length d) - int (length d_in)\<bar>"

text \<open>The \<^verbatim>\<open>for\<close> loop of \<^verbatim>\<open>post_best_fit\<close>, filling \<^verbatim>\<open>diffs\<close>.\<close>

fun fit_loop ::
  "string \<Rightarrow> string option list \<Rightarrow> (string \<times> nat) list \<Rightarrow> py_error + (string \<times> nat) list"
where
  "fit_loop d_in [] diffs = Inr diffs"
| "fit_loop d_in (d # ds) diffs =
     (case post_data_present d d_in of
        Inl err \<Rightarrow> Inl err
      | Inr present \<Rightarrow>
          if \<not> present then fit_loop d_in ds diffs
          else (case d of
                  None \<Rightarrow> Inl (TypeError ''object of type NoneType has no len()'')
                | Some r \<Rightarrow> fit_loop d_in ds (dict_set r (len_diff r d_in) diffs)))"

text \<open>
  \<^verbatim>\<open>post_best_fit(d_in, *d_ref)\<close>: the keys of \<^verbatim>\<open>diffs\<close> in the dictionary's order,
  sorted by their value with Python's stable sort; the first one is returned, and
  \<^verbatim>\<open>IndexError\<close> is raised when there is none.
\<close>

definition post_best_fit :: "env \<Rightarrow> string \<Rightarrow> string option list \<Rightarrow> py_error + string" where
  "post_best_fit e d_in d_ref =
     (case fit_loop d_in d_ref [] of
        Inl err \<Rightarrow> Inl err
      | Inr diffs \<Rightarrow>
          (case map fst (sort_key snd (dict_order e diffs)) of
             [] \<Rightarrow> Inl (IndexError (''Could not choose from zero options for input data: '' @ d_in))
           | b # _ \<Rightarrow> Inr b))"

definition canned_key_partial_subset ::
  "string \<times> string \<Rightarrow> request_key list \<Rightarrow> string option list" where
  "canned_key_partial_subset matcher sample =
     map (\<lambda>k. snd (snd k)) (filter (\<lambda>k. matcher = (fst k, fst (snd k))) sample)"

record canned_response =
  code :: nat
  exception :: "py_error option"
  can_roundtrip :: int
  src :: string

type_synonym cans = "(request_key \<times> canned_response) list"

definition dict_get :: "cans \<Rightarrow> request_key \<Rightarrow> py_error + canned_response" where
  "dict_get cs k = (case map_of cs k of None \<Rightarrow> Inl (KeyError (KeyArg k)) | Some v \<Rightarrow> Inr v)"

definition select_best_can ::
  "env \<Rightarrow> string \<Rightarrow> string \<Rightarrow> string option \<Rightarrow> cans \<Rightarrow> py_error + canned_response" where
  "select_best_can e url meth data cs =
     (case data of
        None \<Rightarrow> dict_get cs (url, meth, None)
      | Some d \<Rightarrow>
          (case post_best_fit e d (canned_key_partial_subset (url, meth) (map fst cs)) of
             Inl err \<Rightarrow> Inl err
           | Inr best \<Rightarrow> dict_get cs (url, meth, Some best)))"

subsection \<open>The browser\<close>

text \<open>
  The attributes of \<^verbatim>\<open>Browser\<close>, and what the curl handle holds: the options set
  on it, the number of \<^verbatim>\<open>perform\<close> calls so far, the wall clock, and the response
  code and effective URL of the last completed transfer.
\<close>

record browser =
  retries :: int
  canned_responses :: cans
  tree :: "page option"
  form :: "form option"
  form_data_dict :: "(string \<times> string option) list"
  roundtrip :: "int option"
  canned_url :: "string option"
  offline :: bool
  buf :: string
  curl_url :: string
  curl_customrequest :: string
  curl_postfields :: "string option"
  performs :: nat
  clock :: int
  response_code :: nat
  effective_url :: string

definition reset :: "browser \<Rightarrow> browser" where
  "reset s = s\<lparr>tree := None, form := None, form_data_dict := [], roundtrip := None\<rparr>"

text \<open>
  The payload handed to \<^verbatim>\<open>go\<close>: a mapping to be encoded (\<^verbatim>\<open>escaped=False\<close>) or a
  string that is already encoded (\<^verbatim>\<open>escaped=True\<close>).
\<close>

datatype payload = Fields "(string \<times> string option) list" | Encoded string

definition escape_data :: "env \<Rightarrow> payload option \<Rightarrow> string option" where
  "escape_data e data =
     (case data of
        None \<Rightarrow> None
      | Some (Fields kv) \<Rightarrow> Some (urlencode e kv)
      | Some (Encoded d) \<Rightarrow> Some d)"

definition upper_char :: "char \<Rightarrow> char" where
  "upper_char c =
     (let n = (of_char c :: nat) in if 97 \<le> n \<and> n \<le> 122 then char_of (n - 32) else c)"

definition upper :: "string \<Rightarrow> string" where
  "upper s = map upper_char s"

definition setup_data ::
  "env \<Rightarrow> browser \<Rightarrow> string \<Rightarrow> string \<Rightarrow> payload option \<Rightarrow> string \<times> string option \<times> browser"
where
  "setup_data e s url meth data =
     (let d = escape_data e data; s1 = s\<lparr>curl_customrequest := meth\<rparr>
      in case d of
           None \<Rightarrow> (url, d, s1)
         | Some enc \<Rightarrow>
             if meth = ''GET''
             then (url @ (if CHR ''?'' \<in> set url then ''&'' else ''?'') @ enc, d, s1)
             else (url, d, s1\<lparr>curl_postfields := Some enc\<rparr>))"

definition setup_canned_response :: "browser \<Rightarrow> canned_response \<Rightarrow> string \<Rightarrow> nat \<times> browser" where
  "setup_canned_response s can url =
     (code can,
      (reset (s\<lparr>buf := buf s @ src can\<rparr>))
        \<lparr>roundtrip := Some (can_roundtrip can), canned_url := Some url\<rparr>)"

text \<open>One call of \<^verbatim>\<open>self._curl.perform()\<close>: the exception it raises, if any.\<close>

definition curl_perform :: "env \<Rightarrow> browser \<Rightarrow> py_error option \<times> browser" where
  "curl_perform e s =
     (let a = transport e (performs s);
          s1 = s\<lparr>performs := Suc (performs s), buf := buf s @ written a,
                 clock := clock s + elapsed a\<rparr>
      in case failure a of
           Some (n, msg) \<Rightarrow> (Some (PycurlError n msg), s1)
         | None \<Rightarrow> (None, s1\<lparr>response_code := att_code a, effective_url := att_url a\<rparr>))"

text \<open>The \<^verbatim>\<open>while\<close> loop of \<^verbatim>\<open>_setup_http_response\<close>.\<close>

function retry_loop :: "env \<Rightarrow> browser \<Rightarrow> int \<Rightarrow> py_error option \<Rightarrow> py_error option \<times> browser" where
  "retry_loop e s n exc =
     (if n \<ge> 0 \<and> exc \<noteq> None
      then (case curl_perform e s of (exc1, s1) \<Rightarrow> retry_loop e s1 (n - 1) exc1)
      else (exc, s))"
  by pat_completeness auto
termination
  by (relation "measure (\<lambda>(e, s, n, exc). nat (n + 1))") auto

declare retry_loop.simps [simp del]

definition setup_http_response :: "env \<Rightarrow> browser \<Rightarrow> string \<Rightarrow> (py_error + nat) \<times> browser" where
  "setup_http_response e s url =
     (let s1 = s\<lparr>curl_url := url\<rparr>;
          before0 = clock s1
      in case retry_loop e s1 (retries s1) (Some (Exception ''Dummy exception'')) of
           (Some ex, s2) \<Rightarrow> (Inl ex, s2)
         | (None, s2) \<Rightarrow>
             (let s3 = (reset s2)\<lparr>roundtrip := Some (clock s2 - before0)\<rparr>
              in (Inr (response_code s3), s3)))"

text \<open>
  The handler of \<^verbatim>\<open>go\<close>: \<^verbatim>\<open>except KeyError\<close> catches a \<^verbatim>\<open>KeyError\<close> raised
  anywhere in the \<^verbatim>\<open>try\<close> block; every other exception leaves \<^verbatim>\<open>go\<close>.
\<close>

definition go_except ::
  "env \<Rightarrow> browser \<Rightarrow> string \<Rightarrow> string \<Rightarrow> string option \<Rightarrow> py_error \<Rightarrow> (py_error + nat) \<times> browser"
where
  "go_except e s url meth data ex =
     (case ex of
        KeyError _ \<Rightarrow>
          if offline s
          then (Inl (LookupError (url, meth, data) (map fst (canned_responses s))), s)
          else setup_http_response e s url
      | _ \<Rightarrow> (Inl ex, s))"

definition go ::
  "env \<Rightarrow> browser \<Rightarrow> string \<Rightarrow> string \<Rightarrow> payload option \<Rightarrow> (py_error + nat) \<times> browser"
where
  "go e s url meth data =
     (case setup_data e (s\<lparr>buf := []\<rparr>) url (upper meth) data of
        (url1, data1, s1) \<Rightarrow>
          (case select_best_can e url1 (upper meth) data1 (canned_responses s1) of
             Inl ex \<Rightarrow> go_except e s1 url1 (upper meth) data1 ex
           | Inr can \<Rightarrow>
               (case exception can of
                  Some ex \<Rightarrow> go_except e s1 url1 (upper meth) data1 ex
                | None \<Rightarrow>
                    (case setup_canned_response s1 can url1 of
                       (c, s2) \<Rightarrow> (Inr c, s2)))))"

subsection \<open>The parsed page\<close>

text \<open>The property \<^verbatim>\<open>url\<close>.\<close>

definition url :: "browser \<Rightarrow> string" where
  "url s = (case canned_url s of Some u \<Rightarrow> u | None \<Rightarrow> effective_url s)"

text \<open>
  \<^verbatim>\<open>add_canned_response(can, url, method, data, escaped)\<close>; the method is stored
  as it is given.
\<close>

definition add_canned_response ::
  "env \<Rightarrow> browser \<Rightarrow> canned_response \<Rightarrow> string \<Rightarrow> string \<Rightarrow> payload option \<Rightarrow> browser" where
  "add_canned_response e s can u meth data =
     s\<lparr>canned_responses := dict_set (u, meth, escape_data e data) can (canned_responses s)\<rparr>"

text \<open>\<^verbatim>\<open>parse\<close>: the tree is built once and kept until the next reset.\<close>

definition parse :: "env \<Rightarrow> browser \<Rightarrow> (py_error + unit) \<times> browser" where
  "parse e s =
     (case tree s of
        Some t \<Rightarrow> (Inr (), s)
      | None \<Rightarrow>
          (case fromstring e (buf s) of
             Inl err \<Rightarrow> (Inl err, s)
           | Inr t \<Rightarrow>
               (Inr (), s\<lparr>tree := Some (make_links_absolute e (effective_url s) t)\<rparr>)))"

text \<open>
  The property \<^verbatim>\<open>forms\<close>: for each form of the page its position and its
  attributes \<^verbatim>\<open>name\<close>, \<^verbatim>\<open>id\<close> and \<^verbatim>\<open>class\<close> where it has them.
\<close>

record form_item =
  fnumber :: nat
  fname :: "string option"
  fid :: "string option"
  fclass :: "string option"

definition forms :: "env \<Rightarrow> browser \<Rightarrow> (py_error + form_item list) \<times> browser" where
  "forms e s =
     (case parse e s of
        (Inl err, s1) \<Rightarrow> (Inl err, s1)
      | (Inr u, s1) \<Rightarrow>
          (case tree s1 of
             None \<Rightarrow> (Inl (AttributeError ''NoneType object has no attribute forms''), s1)
           | Some t \<Rightarrow>
               (Inr (map (\<lambda>(i, f). \<lparr>fnumber = i, fname = form_name f, fid = form_id f,
                                        fclass = form_class f\<rparr>)
                         (enumerate 0 (page_forms t))), s1)))"

text \<open>
  The assertion \<^verbatim>\<open>assert self._form is not None, "A form must be selected: %s" % self.forms\<close>
  that opens the methods on the selected form. When no form is selected the message
  is built first: \<^verbatim>\<open>self.forms\<close> parses the page, so the parser's error is raised
  in place of the \<^verbatim>\<open>AssertionError\<close> when the page does not parse, and the tree
  is kept otherwise. The list printed at the end of the message is left out.
\<close>

definition selected_form :: "env \<Rightarrow> browser \<Rightarrow> (py_error + form) \<times> browser" where
  "selected_form e s =
     (case form s of
        Some f \<Rightarrow> (Inr f, s)
      | None \<Rightarrow>
          (case forms e s of
             (Inl err, s1) \<Rightarrow> (Inl err, s1)
           | (Inr fs, s1) \<Rightarrow> (Inl (AssertionError ''A form must be selected''), s1)))"

subsection \<open>Form selection\<close>

text \<open>
  \<^verbatim>\<open>form_data_update(self, **kwargs)\<close>. Binding the keyword arguments comes first:
  a keyword named like the parameter \<^verbatim>\<open>self\<close> is a \<^verbatim>\<open>TypeError\<close>.
\<close>

definition form_data_update ::
  "env \<Rightarrow> browser \<Rightarrow> (string \<times> string option) list \<Rightarrow> (py_error + unit) \<times> browser" where
  "form_data_update e s kwargs =
     (if ''self'' \<in> fst ` set kwargs
      then (Inl (TypeError
              ''form_data_update() got multiple values for keyword argument self''), s)
      else case selected_form e s of
             (Inl err, s1) \<Rightarrow> (Inl err, s1)
           | (Inr f, s1) \<Rightarrow>
               (Inr (), s1\<lparr>form_data_dict :=
                               fold (\<lambda>kv. dict_set (fst kv) (snd kv)) kwargs (form_data_dict s1)\<rparr>))"

text \<open>\<^verbatim>\<open>dict(pairs)\<close>: a later pair overwrites an earlier one with the same key.\<close>

definition dict_of :: "('k \<times> 'v) list \<Rightarrow> ('k \<times> 'v) list" where
  "dict_of pairs = fold (\<lambda>kv. dict_set (fst kv) (snd kv)) pairs []"

text \<open>The property \<^verbatim>\<open>form_fields\<close>: the fields of the form whose name is not empty.\<close>

definition form_fields ::
  "env \<Rightarrow> browser \<Rightarrow> (py_error + (string \<times> string option) list) \<times> browser" where
  "form_fields e s =
     (case selected_form e s of
        (Inl err, s1) \<Rightarrow> (Inl err, s1)
      | (Inr f, s1) \<Rightarrow> (Inr (dict_of (filter (\<lambda>pair. fst pair \<noteq> []) (form_inputs f))), s1))"

definition form_dropdowns_nodes :: "env \<Rightarrow> browser \<Rightarrow> (py_error + select_elem list) \<times> browser" where
  "form_dropdowns_nodes e s =
     (case selected_form e s of
        (Inl err, s1) \<Rightarrow> (Inl err, s1)
      | (Inr f, s1) \<Rightarrow> (Inr (form_selects f), s1))"

definition form_dropdowns :: "env \<Rightarrow> browser \<Rightarrow> (py_error + string option list) \<times> browser" where
  "form_dropdowns e s =
     (case selected_form e s of
        (Inl err, s1) \<Rightarrow> (Inl err, s1)
      | (Inr f, s1) \<Rightarrow>
          (case form_dropdowns_nodes e s1 of
             (Inl err, s2) \<Rightarrow> (Inl err, s2)
           | (Inr nodes, s2) \<Rightarrow> (Inr (map select_name nodes), s2)))"

text \<open>
  \<^verbatim>\<open>_form_dropdown_options_raw(select_name)\<close>: the options of the
  \<^verbatim>\<open>select\<close> elements of the form whose name is the given string (a name
  without double quote: the source pastes it into the query between double quotes).
\<close>

definition form_dropdown_options_raw ::
  "env \<Rightarrow> browser \<Rightarrow> string \<Rightarrow> (py_error + option_elem list) \<times> browser" where
  "form_dropdown_options_raw e s name =
     (case selected_form e s of
        (Inl err, s1) \<Rightarrow> (Inl err, s1)
      | (Inr f, s1) \<Rightarrow>
          (Inr (concat (map select_options
                  (filter (\<lambda>sel. select_name sel = Some name) (form_selects f)))), s1))"

text \<open>Indexing a list with an integer: negative indices count from the end.\<close>

definition py_index :: "'a list \<Rightarrow> int \<Rightarrow> py_error + 'a" where
  "py_index xs i =
     (if 0 \<le> i \<and> i < int (length xs) then Inr (xs ! nat i)
      else if i < 0 \<and> - int (length xs) \<le> i then Inr (xs ! nat (int (length xs) + i))
      else Inl (IndexError ''list index out of range''))"

text \<open>
  \<^verbatim>\<open>form_fill_dropdown(select_name, option_title=None)\<close>. The name of a
  \<^verbatim>\<open>select\<close> without name is \<^verbatim>\<open>None\<close>: it is formatted into the query as
  the text \<^verbatim>\<open>None\<close>, and it is no keyword for \<^verbatim>\<open>form_data_update\<close>.
\<close>

definition form_fill_dropdown ::
  "env \<Rightarrow> browser \<Rightarrow> string option \<Rightarrow> string option \<Rightarrow> (py_error + unit) \<times> browser" where
  "form_fill_dropdown e s name option_title =
     (case form_dropdown_options_raw e s (case name of Some n \<Rightarrow> n | None \<Rightarrow> ''None'') of
        (Inl err, s1) \<Rightarrow> (Inl err, s1)
      | (Inr nodes, s1) \<Rightarrow>
          (case (case option_title of
                   None \<Rightarrow> py_index nodes 0
                 | Some title \<Rightarrow>
                     py_index (filter (\<lambda>n. option_text n = Some title) nodes) 0) of
             Inl err \<Rightarrow> (Inl err, s1)
           | Inr node \<Rightarrow>
               (case name of
                  None \<Rightarrow> (Inl (TypeError ''form_data_update() keywords must be strings''), s1)
                | Some n \<Rightarrow> form_data_update e s1 [(n, option_value node)])))"

text \<open>The loop of \<^verbatim>\<open>form_select\<close> over the dropdowns of the form.\<close>

fun fill_dropdowns :: "env \<Rightarrow> browser \<Rightarrow> string option list \<Rightarrow> (py_error + unit) \<times> browser" where
  "fill_dropdowns e s [] = (Inr (), s)"
| "fill_dropdowns e s (d # ds) =
     (case form_fill_dropdown e s d None of
        (Inl err, s1) \<Rightarrow> (Inl err, s1)
      | (Inr u, s1) \<Rightarrow> fill_dropdowns e s1 ds)"

text \<open>The argument of \<^verbatim>\<open>form_select\<close> and \<^verbatim>\<open>form_submit\<close>: a position, or a name.\<close>

datatype selector = Index int | Name string

text \<open>
  The \<^verbatim>\<open>try\<close> statement of \<^verbatim>\<open>form_select\<close>: indexing with \<^verbatim>\<open>None\<close> or
  with a string raises \<^verbatim>\<open>TypeError\<close>; it is raised again for \<^verbatim>\<open>None\<close>, and
  for a string the first form whose name or id is the string is taken.
\<close>

definition find_form ::
  "env \<Rightarrow> browser \<Rightarrow> page \<Rightarrow> selector option \<Rightarrow> (py_error + form) \<times> browser" where
  "find_form e s t idx =
     (case idx of
        None \<Rightarrow> (Inl (TypeError ''list indices must be integers, not NoneType''), s)
      | Some (Index i) \<Rightarrow> (py_index (page_forms t) i, s)
      | Some (Name n) \<Rightarrow>
          (case forms e s of
             (Inl err, s1) \<Rightarrow> (Inl err, s1)
           | (Inr fs, s1) \<Rightarrow>
               (case filter (\<lambda>f. fname f = Some n \<or> fid f = Some n) fs of
                  [] \<Rightarrow> (Inl (IndexError ''list index out of range''), s1)
                | f # rest \<Rightarrow> (py_index (page_forms t) (int (fnumber f)), s1))))"

definition form_select :: "env \<Rightarrow> browser \<Rightarrow> selector option \<Rightarrow> (py_error + unit) \<times> browser" where
  "form_select e s idx =
     (case parse e s of
        (Inl err, s1) \<Rightarrow> (Inl err, s1)
      | (Inr u, s1) \<Rightarrow>
          (case tree s1 of
             None \<Rightarrow> (Inl (AttributeError ''NoneType object has no attribute forms''), s1)
           | Some t \<Rightarrow>
               (case find_form e s1 t idx of
                  (Inl err, s2) \<Rightarrow> (Inl err, s2)
                | (Inr f, s2) \<Rightarrow>
                    (case form_fields e (s2\<lparr>form := Some f\<rparr>) of
                       (Inl err, s3) \<Rightarrow> (Inl err, s3)
                     | (Inr data, s3) \<Rightarrow>
                         (case form_dropdowns e (s3\<lparr>form_data_dict := data\<rparr>) of
                            (Inl err, s4) \<Rightarrow> (Inl err, s4)
                          | (Inr names, s4) \<Rightarrow> fill_dropdowns e s4 names)))))"

subsection \<open>Form submission\<close>

text \<open>
  The dictionaries of \<^verbatim>\<open>form_submits\<close>: the position of the button, and its
  \<^verbatim>\<open>name\<close> and \<^verbatim>\<open>value\<close> where the element has them.
\<close>

record submit_item =
  number :: nat
  item_name :: "string option"
  item_value :: "string option"

definition form_submits :: "env \<Rightarrow> browser \<Rightarrow> (py_error + submit_item list) \<times> browser" where
  "form_submits e s =
     (case selected_form e s of
        (Inl err, s1) \<Rightarrow> (Inl err, s1)
      | (Inr f, s1) \<Rightarrow>
          if \<not> length (submit_inputs f) > 0
          then (Inl (AssertionError ''The selected form must contain a submit button''), s1)
          else (Inr (map (\<lambda>(i, b). \<lparr>number = i, item_name = input_name b,
                                       item_value = input_value b\<rparr>)
                         (enumerate 0 (submit_inputs f))), s1))"

text \<open>
  Lines 283 to 289 of \<^verbatim>\<open>form_submit\<close>: indexing with a string raises
  \<^verbatim>\<open>TypeError\<close>, and the handler takes the first button one of whose dictionary
  values equals the string.
\<close>

definition choose_submit :: "submit_item list \<Rightarrow> selector option \<Rightarrow> py_error + submit_item" where
  "choose_submit submits submit_button =
     (case submit_button of
        None \<Rightarrow> py_index submits 0
      | Some (Index i) \<Rightarrow> py_index submits i
      | Some (Name n) \<Rightarrow>
          (case filter (\<lambda>b. item_name b = Some n \<or> item_value b = Some n) submits of
             [] \<Rightarrow> Inl (IndexError ''list index out of range'')
           | b # _ \<Rightarrow> py_index submits (int (number b))))"

text \<open>Lines 282 to 294: the button is chosen and its pair goes into the form data.\<close>

definition press_submit ::
  "env \<Rightarrow> browser \<Rightarrow> submit_item list \<Rightarrow> selector option \<Rightarrow> (py_error + unit) \<times> browser" where
  "press_submit e s submits submit_button =
     (if length submits > 0
      then (case choose_submit submits submit_button of
              Inl err \<Rightarrow> (Inl err, s)
            | Inr submit \<Rightarrow>
                (case item_name submit of
                   Some n \<Rightarrow>
                     form_data_update e s
                       [(n, Some (case item_value submit of Some v \<Rightarrow> v | None \<Rightarrow> []))]
                 | None \<Rightarrow> (Inr (), s)))
      else (Inr (), s))"

definition form_submit_data ::
  "env \<Rightarrow> browser \<Rightarrow> string option \<Rightarrow> string option \<Rightarrow> (string \<times> string option) list
     \<Rightarrow> (py_error + nat) \<times> browser"
where
  "form_submit_data e s meth action data =
     (case meth of
        None \<Rightarrow> (Inl (AssertionError ''method must be supplied''), s)
      | Some m \<Rightarrow>
          (case action of
             None \<Rightarrow> (Inl (AssertionError ''action must be supplied''), s)
           | Some a \<Rightarrow> go e s a m (Some (Fields data))))"

definition form_submit :: "env \<Rightarrow> browser \<Rightarrow> selector option \<Rightarrow> (py_error + nat) \<times> browser" where
  "form_submit e s submit_button =
     (case selected_form e s of
        (Inl err, s1) \<Rightarrow> (Inl err, s1)
      | (Inr f, s1) \<Rightarrow>
          (case form_submits e s1 of
             (Inl err, s2) \<Rightarrow> (Inl err, s2)
           | (Inr submits, s2) \<Rightarrow>
               if \<not> (length submits \<le> 1 \<or> submit_button \<noteq> None)
               then (Inl (AssertionError
                       ''Implicit submit is not possible; an explicit choice must be passed''), s2)
               else (case press_submit e s2 submits submit_button of
                       (Inl err, s3) \<Rightarrow> (Inl err, s3)
                     | (Inr u, s3) \<Rightarrow>
                         form_submit_data e s3 (Some (form_method f))
                           (Some (case form_action f of Some a \<Rightarrow> a | None \<Rightarrow> url s3))
                           (form_data_dict s3))))"


subsection \<open>Sample data\<close>

text \<open>
  Concrete collaborators and responses on which the theorems below are exercised: an
  encoder, a transfer that completes and one that fails, a dictionary that iterates in
  insertion order and one that iterates in the reverse order, and three pages with one
  form each, as the parser returns them for their sources.
\<close>

fun join :: "string \<Rightarrow> string list \<Rightarrow> string" where
  "join sep [] = []"
| "join sep [x] = x"
| "join sep (x # y # ys) = x @ sep @ join sep (y # ys)"

definition plain_urlencode :: "(string \<times> string option) list \<Rightarrow> string" where
  "plain_urlencode kv =
     join ''&'' (map (\<lambda>(k, v). k @ ''='' @ (case v of Some x \<Rightarrow> x | None \<Rightarrow> ''None'')) kv)"

definition two_button_form :: form where
  "two_button_form =
     \<lparr>form_method = ''POST'', form_action = Some ''http://x/edit'', form_name = Some ''edit'',
      form_id = None, form_class = None,
      form_inputs = [(''save'', Some ''Save''), (''delete'', Some ''Delete'')],
      form_selects = [],
      submit_inputs = [\<lparr>input_name = Some ''save'', input_value = Some ''Save''\<rparr>,
                       \<lparr>input_name = Some ''delete'', input_value = Some ''Delete''\<rparr>]\<rparr>"

definition one_button_form :: form where
  "one_button_form =
     \<lparr>form_method = ''POST'', form_action = None, form_name = None, form_id = None,
      form_class = None, form_inputs = [(''go'', None)], form_selects = [],
      submit_inputs = [\<lparr>input_name = Some ''go'', input_value = None\<rparr>]\<rparr>"

definition self_button_form :: form where
  "self_button_form =
     \<lparr>form_method = ''POST'', form_action = Some ''http://x/edit'', form_name = None,
      form_id = None, form_class = None, form_inputs = [(''self'', Some ''Go'')],
      form_selects = [],
      submit_inputs = [\<lparr>input_name = Some ''self'', input_value = Some ''Go''\<rparr>]\<rparr>"

definition no_button_form :: form where
  "no_button_form =
     \<lparr>form_method = ''POST'', form_action = None, form_name = None, form_id = None,
      form_class = None, form_inputs = [], form_selects = [], submit_inputs = []\<rparr>"

definition sample_parser :: "string \<Rightarrow> py_error + page" where
  "sample_parser source =
     (if source = [] then Inl (ParserError ''Document is empty'')
      else if source = ''<form one>'' then Inr \<lparr>page_forms = [one_button_form]\<rparr>
      else if source = ''<form two>'' then Inr \<lparr>page_forms = [two_button_form]\<rparr>
      else Inr \<lparr>page_forms = []\<rparr>)"

definition ok_attempt :: attempt where
  "ok_attempt = \<lparr>failure = None, written = ''<html/>'', att_code = 200,
                  att_url = ''http://x/'', elapsed = 3\<rparr>"

definition bad_attempt :: attempt where
  "bad_attempt = \<lparr>failure = Some (7, ''refused''), written = [], att_code = 0,
                   att_url = [], elapsed = 2\<rparr>"

definition env_fwd :: env where
  "env_fwd = \<lparr>dict_order = (\<lambda>xs. xs), urlencode = plain_urlencode,
               transport = (\<lambda>k. ok_attempt), fromstring = sample_parser,
               make_links_absolute = (\<lambda>base t. t)\<rparr>"

definition env_bwd :: env where
  "env_bwd = \<lparr>dict_order = rev, urlencode = plain_urlencode,
               transport = (\<lambda>k. ok_attempt), fromstring = sample_parser,
               make_links_absolute = (\<lambda>base t. t)\<rparr>"

definition env_down :: env where
  "env_down = \<lparr>dict_order = (\<lambda>xs. xs), urlencode = plain_urlencode,
                transport = (\<lambda>k. bad_attempt), fromstring = sample_parser,
                make_links_absolute = (\<lambda>base t. t)\<rparr>"

definition env_flaky :: env where
  "env_flaky = \<lparr>dict_order = (\<lambda>xs. xs), urlencode = plain_urlencode,
                 transport = (\<lambda>k. if k < 1 then bad_attempt else ok_attempt),
                 fromstring = sample_parser, make_links_absolute = (\<lambda>base t. t)\<rparr>"

text \<open>A server that answers every request with the page of the given source.\<close>

definition env_serving :: "string \<Rightarrow> env" where
  "env_serving source =
     \<lparr>dict_order = (\<lambda>xs. xs), urlencode = plain_urlencode,
      transport = (\<lambda>k. \<lparr>failure = None, written = source, att_code = 200,
                           att_url = ''http://x/page'', elapsed = 3\<rparr>),
      fromstring = sample_parser, make_links_absolute = (\<lambda>base t. t)\<rparr>"

definition can_a :: canned_response where
  "can_a = \<lparr>code = 200, exception = None, can_roundtrip = 0, src = ''A''\<rparr>"

definition can_b :: canned_response where
  "can_b = \<lparr>code = 404, exception = None, can_roundtrip = 0, src = ''B''\<rparr>"

definition can_keyerror :: canned_response where
  "can_keyerror = \<lparr>code = 200, exception = Some (KeyError (Text ''boom'')),
                    can_roundtrip = 0, src = []\<rparr>"

definition can_failure :: canned_response where
  "can_failure = \<lparr>code = 200, exception = Some (Exception ''boom''),
                   can_roundtrip = 0, src = []\<rparr>"

text \<open>The state that \<^verbatim>\<open>Browser()\<close> leaves.\<close>

definition fresh_browser :: browser where
  "fresh_browser =
     \<lparr>retries = 0, canned_responses = [], tree = None, form = None, form_data_dict = [],
      roundtrip = None, canned_url = None, offline = False, buf = [], curl_url = [],
      curl_customrequest = [], curl_postfields = None, performs = 0, clock = 0,
      response_code = 0, effective_url = []\<rparr>"

text \<open>
  A session on that server: the page is fetched with \<^verbatim>\<open>go\<close>, then its first form
  is selected with \<^verbatim>\<open>form_select(0)\<close>.
\<close>

definition visited :: "string \<Rightarrow> browser" where
  "visited source = snd (go (env_serving source) fresh_browser ''http://x/page'' ''get'' None)"

definition with_form :: "string \<Rightarrow> browser" where
  "with_form source = snd (form_select (env_serving source) (visited source) (Some (Index 0)))"

section \<open>Properties of the best-fit matching\<close>

lemma set_dict_set:
  "\<forall>q \<in> set al. fst q = k \<longrightarrow> snd q = v \<Longrightarrow> set (dict_set k v al) = insert (k, v) (set al)"
  by (induction al) (auto simp: prod_eq_iff)

lemma present_iff:
  "post_data_present (Some r) p = Inr (setify r \<subseteq> setify p)"
  by (simp add: post_data_present_def setify_def)

lemma fit_loop_set:
  "fit_loop p ds acc = Inr diffs \<Longrightarrow> \<forall>q \<in> set acc. snd q = len_diff (fst q) p \<Longrightarrow>
   set diffs = set acc \<union> {(r, len_diff r p) | r. Some r \<in> set ds \<and> setify r \<subseteq> setify p}"
proof (induction ds arbitrary: acc)
  case Nil
  then show ?case by simp
next
  case (Cons d ds)
  show ?case
  proof (cases d)
    case None
    with Cons.prems show ?thesis by (simp add: post_data_present_def)
  next
    case (Some r)
    show ?thesis
    proof (cases "setify r \<subseteq> setify p")
      case False
      with Some Cons.prems have "fit_loop p ds acc = Inr diffs"
        by (simp add: present_iff)
      from Cons.IH [OF this Cons.prems(2)] Some False show ?thesis by auto
    next
      case True
      let ?acc = "dict_set r (len_diff r p) acc"
      from Cons.prems(2) have eq: "set ?acc = insert (r, len_diff r p) (set acc)"
        by (intro set_dict_set) auto
      from True Some Cons.prems have "fit_loop p ds ?acc = Inr diffs"
        by (simp add: present_iff)
      moreover from eq Cons.prems(2) have "\<forall>q \<in> set ?acc. snd q = len_diff (fst q) p"
        by auto
      ultimately have "set diffs = set ?acc \<union> {(r, len_diff r p) | r. Some r \<in> set ds \<and> setify r \<subseteq> setify p}"
        by (rule Cons.IH)
      with eq Some True show ?thesis by auto
    qed
  qed
qed

lemma fit_loop_total:
  "None \<notin> set ds \<Longrightarrow> \<exists>diffs. fit_loop p ds acc = Inr diffs"
proof (induction ds arbitrary: acc)
  case Nil
  then show ?case by simp
next
  case (Cons d ds)
  then obtain r where "d = Some r" by (cases d) auto
  with Cons show ?case by (simp add: present_iff)
qed

lemma candidates_iff:
  "d \<in> set (canned_key_partial_subset (u, m) (map fst cs)) \<longleftrightarrow> (u, m, d) \<in> fst ` set cs"
proof -
  have "set (canned_key_partial_subset (u, m) (map fst cs)) =
        (\<lambda>k. snd (snd k)) ` {k \<in> fst ` set cs. (u, m) = (fst k, fst (snd k))}"
    by (simp add: canned_key_partial_subset_def)
  also have "\<dots> = {d. (u, m, d) \<in> fst ` set cs}"
  proof (rule set_eqI)
    fix d
    show "d \<in> (\<lambda>k. snd (snd k)) ` {k \<in> fst ` set cs. (u, m) = (fst k, fst (snd k))}
          \<longleftrightarrow> d \<in> {d. (u, m, d) \<in> fst ` set cs}"
    proof
      assume "d \<in> (\<lambda>k. snd (snd k)) ` {k \<in> fst ` set cs. (u, m) = (fst k, fst (snd k))}"
      then obtain k where k: "k \<in> fst ` set cs" "(u, m) = (fst k, fst (snd k))" "d = snd (snd k)"
        by blast
      then have "k = (u, m, d)" by (simp add: prod_eq_iff)
      with k(1) show "d \<in> {d. (u, m, d) \<in> fst ` set cs}" by simp
    next
      assume "d \<in> {d. (u, m, d) \<in> fst ` set cs}"
      then have "(u, m, d) \<in> {k \<in> fst ` set cs. (u, m) = (fst k, fst (snd k))}" by simp
      then have "snd (snd (u, m, d)) \<in> (\<lambda>k. snd (snd k)) ` {k \<in> fst ` set cs. (u, m) = (fst k, fst (snd k))}"
        by (rule imageI)
      then show "d \<in> (\<lambda>k. snd (snd k)) ` {k \<in> fst ` set cs. (u, m) = (fst k, fst (snd k))}"
        by simp
    qed
  qed
  finally show ?thesis by simp
qed

lemma hd_sort_key_least:
  assumes "x \<in> set ys" and "\<forall>y \<in> set ys. y \<noteq> x \<longrightarrow> f x < (f y :: nat)"
  shows "\<exists>zs. sort_key f ys = x # zs"
proof -
  have st: "set (sort_key f ys) = set ys" by simp
  have "sort_key f ys \<noteq> []"
  proof
    assume "sort_key f ys = []"
    then have "set (sort_key f ys) = {}" by (simp only: list.set)
    then have "set ys = {}" by (simp only: set_sort)
    with assms(1) show False by simp
  qed
  then obtain z zs where zs: "sort_key f ys = z # zs" by (cases "sort_key f ys") auto
  have "sorted (map f (sort_key f ys))" by (rule sorted_sort_key)
  with zs have le: "\<forall>y \<in> set (z # zs). f z \<le> f y" by auto
  from st zs have "set (z # zs) = set ys" by (simp only:)
  with assms(1) le have zx: "f z \<le> f x" and zin: "z \<in> set ys" by auto
  have "z = x"
  proof (rule ccontr)
    assume "z \<noteq> x"
    with assms(2) zin have "f x < f z" by blast
    with zx show False by simp
  qed
  with zs show ?thesis by simp
qed

lemma post_best_fit_least:
  assumes ok: "order_ok e" and nn: "None \<notin> set ds" and r: "Some r \<in> set ds"
    and sub: "setify r \<subseteq> setify p"
    and least: "\<forall>r'. Some r' \<in> set ds \<and> r' \<noteq> r \<and> setify r' \<subseteq> setify p \<longrightarrow> len_diff r p < len_diff r' p"
  shows "post_best_fit e p ds = Inr r"
proof -
  from fit_loop_total [OF nn] obtain diffs where d: "fit_loop p ds [] = Inr diffs" by blast
  from fit_loop_set [OF d] have s: "set diffs = {(r, len_diff r p) | r. Some r \<in> set ds \<and> setify r \<subseteq> setify p}"
    by simp
  from ok have s': "set (dict_order e diffs) = set diffs" by (simp add: order_ok_def)
  from s s' r sub have "(r, len_diff r p) \<in> set (dict_order e diffs)" by blast
  moreover have "\<forall>y \<in> set (dict_order e diffs). y \<noteq> (r, len_diff r p) \<longrightarrow> snd (r, len_diff r p) < snd y"
  proof (intro ballI impI)
    fix y assume y: "y \<in> set (dict_order e diffs)" and ne: "y \<noteq> (r, len_diff r p)"
    from y s s' obtain r' where r': "y = (r', len_diff r' p)" "Some r' \<in> set ds" "setify r' \<subseteq> setify p"
      by blast
    with ne have "r' \<noteq> r" by auto
    with r' least have "len_diff r p < len_diff r' p" by blast
    with r'(1) show "snd (r, len_diff r p) < snd y" by simp
  qed
  ultimately obtain zs where "sort_key snd (dict_order e diffs) = (r, len_diff r p) # zs"
    using hd_sort_key_least [of "(r, len_diff r p)" "dict_order e diffs" snd] by blast
  with d show ?thesis by (simp add: post_best_fit_def)
qed

lemma post_best_fit_survivor:
  assumes ok: "order_ok e" and b: "post_best_fit e p ds = Inr b"
  shows "Some b \<in> set ds \<and> setify b \<subseteq> setify p"
proof -
  from b obtain diffs where d: "fit_loop p ds [] = Inr diffs"
    by (cases "fit_loop p ds []") (simp_all add: post_best_fit_def)
  from fit_loop_set [OF d] have s: "set diffs = {(r, len_diff r p) | r. Some r \<in> set ds \<and> setify r \<subseteq> setify p}"
    by simp
  from ok have s': "set (dict_order e diffs) = set diffs" by (simp add: order_ok_def)
  from b d obtain q qs where q: "sort_key snd (dict_order e diffs) = q # qs" and fq: "fst q = b"
    by (cases "sort_key snd (dict_order e diffs)") (simp_all add: post_best_fit_def)
  have "q \<in> set (sort_key snd (dict_order e diffs))" by (simp only: q list.set insertI1)
  then have "q \<in> set diffs" using s' by (simp only: set_sort)
  with s fq show ?thesis by auto
qed

lemma order_ok_fwd: "order_ok env_fwd"
  by (simp add: order_ok_def env_fwd_def)

lemma select_least:
  assumes ok: "order_ok e" and nn: "(u, m, None) \<notin> fst ` set cs"
    and reg: "map_of cs (u, m, Some r) = Some c"
    and sub: "setify r \<subseteq> setify p"
    and least: "\<forall>r'. (u, m, Some r') \<in> fst ` set cs \<and> r' \<noteq> r \<and> setify r' \<subseteq> setify p
                  \<longrightarrow> len_diff r p < len_diff r' p"
  shows "select_best_can e u m (Some p) cs = Inr c"
proof -
  let ?ds = "canned_key_partial_subset (u, m) (map fst cs)"
  from nn have 1: "None \<notin> set ?ds" by (simp only: candidates_iff not_False_eq_True)
  from reg have "(u, m, Some r) \<in> fst ` set cs" by (metis map_of_SomeD fst_conv image_eqI)
  then have 2: "Some r \<in> set ?ds" by (simp only: candidates_iff)
  from least have 3: "\<forall>r'. Some r' \<in> set ?ds \<and> r' \<noteq> r \<and> setify r' \<subseteq> setify p
                  \<longrightarrow> len_diff r p < len_diff r' p"
    by (simp only: candidates_iff)
  from post_best_fit_least [OF ok 1 2 sub 3] have "post_best_fit e p ?ds = Inr r" .
  with reg show ?thesis by (simp add: select_best_can_def dict_get_def)
qed

text \<open>
  Claim C1 fails as stated: an exact key is not looked up first when the payload is
  present. Two registered payloads with the same tokens in another order tie at
  distance zero, and the dictionary order decides: with insertion order the request
  \<^verbatim>\<open>b&a\<close> gets the response registered for \<^verbatim>\<open>a&b\<close>, and with the reverse order
  the request \<^verbatim>\<open>a&b\<close> gets the response registered for \<^verbatim>\<open>b&a\<close>.
\<close>

theorem select_best_can_exact_counterexample:
  "select_best_can env_fwd ''u'' ''POST'' (Some ''b&a'')
     [((''u'', ''POST'', Some ''a&b''), can_a), ((''u'', ''POST'', Some ''b&a''), can_b)] = Inr can_a
   \<and> select_best_can env_bwd ''u'' ''POST'' (Some ''a&b'')
     [((''u'', ''POST'', Some ''a&b''), can_a), ((''u'', ''POST'', Some ''b&a''), can_b)] = Inr can_b
   \<and> can_a \<noteq> can_b"
  by (simp add: select_best_can_def post_best_fit_def canned_key_partial_subset_def
      post_data_present_def setify_def py_split_def len_diff_def dict_get_def
      env_fwd_def env_bwd_def can_a_def can_b_def)

text \<open>
  Claim C1, amended. For a registered key \<^verbatim>\<open>(url, method, payload)\<close>,
  \<^verbatim>\<open>select_best_can\<close> called with that key returns the registered response when the
  payload is \<^verbatim>\<open>None\<close>; when the payload is present it does so provided that no key
  \<^verbatim>\<open>(url, method, None)\<close> is registered and that no other registered payload of the
  same url and method has the same length and only tokens of the requested payload.
\<close>

theorem select_best_can_exact:
  assumes reg: "map_of cs (u, m, a) = Some c"
    and rival: "\<forall>p. a = Some p \<longrightarrow>
                  order_ok e \<and> (u, m, None) \<notin> fst ` set cs \<and>
                  (\<forall>r. (u, m, Some r) \<in> fst ` set cs \<and> r \<noteq> p \<and> setify r \<subseteq> setify p
                       \<longrightarrow> length r \<noteq> length p)"
  shows "select_best_can e u m a cs = Inr c"
proof (cases a)
  case None
  with reg show ?thesis by (simp add: select_best_can_def dict_get_def)
next
  case (Some p)
  with rival have ok: "order_ok e" and nn: "(u, m, None) \<notin> fst ` set cs"
    and riv: "\<forall>r. (u, m, Some r) \<in> fst ` set cs \<and> r \<noteq> p \<and> setify r \<subseteq> setify p
                \<longrightarrow> length r \<noteq> length p"
    by blast+
  have z: "len_diff p p = 0" by (simp add: len_diff_def)
  have "\<forall>r'. (u, m, Some r') \<in> fst ` set cs \<and> r' \<noteq> p \<and> setify r' \<subseteq> setify p
            \<longrightarrow> len_diff p p < len_diff r' p"
  proof (intro allI impI)
    fix r' assume "(u, m, Some r') \<in> fst ` set cs \<and> r' \<noteq> p \<and> setify r' \<subseteq> setify p"
    with riv have "length r' \<noteq> length p" by blast
    then have "0 < len_diff r' p" by (simp add: len_diff_def)
    with z show "len_diff p p < len_diff r' p" by simp
  qed
  from select_least [OF ok nn _ _ this, of c] reg Some show ?thesis by simp
qed

theorem select_best_can_exact_witness:
  "select_best_can env_fwd ''u'' ''POST'' (Some ''a=1&b=2'')
     [((''u'', ''POST'', Some ''a=1''), can_a), ((''u'', ''POST'', Some ''a=1&b=2''), can_b)] = Inr can_b
   \<and> select_best_can env_fwd ''u'' ''GET'' None
     [((''u'', ''GET'', None), can_a), ((''u'', ''GET'', Some ''a=1''), can_b)] = Inr can_a"
proof
  show "select_best_can env_fwd ''u'' ''POST'' (Some ''a=1&b=2'')
     [((''u'', ''POST'', Some ''a=1''), can_a), ((''u'', ''POST'', Some ''a=1&b=2''), can_b)] = Inr can_b"
    by (rule select_best_can_exact) (auto simp: order_ok_fwd)
  show "select_best_can env_fwd ''u'' ''GET'' None
     [((''u'', ''GET'', None), can_a), ((''u'', ''GET'', Some ''a=1''), can_b)] = Inr can_a"
    by (rule select_best_can_exact) simp_all
qed

lemma order_ok_bwd: "order_ok env_bwd"
  by (simp add: order_ok_def env_bwd_def)

text \<open>
  Claim C2 fails as stated: it lets the reference payload win as soon as no other
  surviving candidate is strictly closer, which two candidates at the same distance
  both satisfy. The payloads \<^verbatim>\<open>a=1\<close> and \<^verbatim>\<open>b=2\<close> are both contained in
  \<^verbatim>\<open>a=1&b=2\<close> at distance 4; one response is returned, the first in the order
  of the dictionary, so whichever that order is, one of the two is not selected.
\<close>

theorem select_best_can_closest_counterexample:
  "select_best_can env_fwd ''u'' ''POST'' (Some ''a=1&b=2'')
     [((''u'', ''POST'', Some ''a=1''), can_a), ((''u'', ''POST'', Some ''b=2''), can_b)] = Inr can_a
   \<and> select_best_can env_bwd ''u'' ''POST'' (Some ''a=1&b=2'')
     [((''u'', ''POST'', Some ''a=1''), can_a), ((''u'', ''POST'', Some ''b=2''), can_b)] = Inr can_b
   \<and> len_diff ''a=1'' ''a=1&b=2'' = len_diff ''b=2'' ''a=1&b=2''
   \<and> can_a \<noteq> can_b"
  by (simp add: select_best_can_def post_best_fit_def canned_key_partial_subset_def
      post_data_present_def setify_def py_split_def len_diff_def dict_get_def
      env_fwd_def env_bwd_def can_a_def can_b_def)

text \<open>
  Claim C2, amended. When the dictionary of differences iterates over exactly its keys
  and no key \<^verbatim>\<open>(url, method, None)\<close> is registered: for an incoming payload
  and a registered reference payload of the same url and method whose tokens are all
  tokens of the incoming payload, if every other registered payload of that url and
  method that survives the subset test is strictly farther in length, then
  \<^verbatim>\<open>select_best_can\<close> returns the response registered for the reference
  payload. Whatever \<^verbatim>\<open>post_best_fit\<close> returns is a registered payload whose
  tokens are all tokens of the incoming payload: the others are discarded.
\<close>

theorem select_best_can_closest:
  assumes ok: "order_ok e"
  shows "((u, m, None) \<notin> fst ` set cs \<and> map_of cs (u, m, Some r) = Some c \<and>
          setify r \<subseteq> setify p \<and>
          (\<forall>r'. (u, m, Some r') \<in> fst ` set cs \<and> r' \<noteq> r \<and> setify r' \<subseteq> setify p
                \<longrightarrow> len_diff r p < len_diff r' p)
          \<longrightarrow> select_best_can e u m (Some p) cs = Inr c)
       \<and> (\<forall>b. post_best_fit e p (canned_key_partial_subset (u, m) (map fst cs)) = Inr b
              \<longrightarrow> (u, m, Some b) \<in> fst ` set cs \<and> setify b \<subseteq> setify p)"
proof (intro conjI impI allI)
  assume h: "(u, m, None) \<notin> fst ` set cs \<and> map_of cs (u, m, Some r) = Some c \<and>
          setify r \<subseteq> setify p \<and>
          (\<forall>r'. (u, m, Some r') \<in> fst ` set cs \<and> r' \<noteq> r \<and> setify r' \<subseteq> setify p
                \<longrightarrow> len_diff r p < len_diff r' p)"
  then have 1: "(u, m, None) \<notin> fst ` set cs" and 2: "map_of cs (u, m, Some r) = Some c"
    and 3: "setify r \<subseteq> setify p"
    and 4: "\<forall>r'. (u, m, Some r') \<in> fst ` set cs \<and> r' \<noteq> r \<and> setify r' \<subseteq> setify p
                \<longrightarrow> len_diff r p < len_diff r' p"
    by blast+
  from select_least [OF ok 1 2 3 4] show "select_best_can e u m (Some p) cs = Inr c" .
next
  fix b assume "post_best_fit e p (canned_key_partial_subset (u, m) (map fst cs)) = Inr b"
  from post_best_fit_survivor [OF ok this]
  show "(u, m, Some b) \<in> fst ` set cs" by (simp only: candidates_iff)
next
  fix b assume "post_best_fit e p (canned_key_partial_subset (u, m) (map fst cs)) = Inr b"
  from post_best_fit_survivor [OF ok this] show "setify b \<subseteq> setify p" by simp
qed

theorem select_best_can_closest_witness:
  "select_best_can env_bwd ''u'' ''POST'' (Some ''a=1&b=2&c=3'')
     [((''u'', ''POST'', Some ''a=1''), can_a), ((''u'', ''POST'', Some ''a=1&b=2''), can_b),
      ((''u'', ''POST'', Some ''d=4''), can_a)] = Inr can_b"
proof -
  let ?cs = "[((''u'', ''POST'', Some ''a=1''), can_a), ((''u'', ''POST'', Some ''a=1&b=2''), can_b),
      ((''u'', ''POST'', Some ''d=4''), can_a)]"
  have h: "(''u'', ''POST'', None) \<notin> fst ` set ?cs \<and>
        map_of ?cs (''u'', ''POST'', Some ''a=1&b=2'') = Some can_b \<and>
        setify ''a=1&b=2'' \<subseteq> setify ''a=1&b=2&c=3'' \<and>
        (\<forall>r'. (''u'', ''POST'', Some r') \<in> fst ` set ?cs \<and> r' \<noteq> ''a=1&b=2'' \<and>
               setify r' \<subseteq> setify ''a=1&b=2&c=3''
               \<longrightarrow> len_diff ''a=1&b=2'' ''a=1&b=2&c=3'' < len_diff r' ''a=1&b=2&c=3'')"
    by (auto simp: setify_def py_split_def len_diff_def)
  from select_best_can_closest [OF order_ok_bwd, of "''u''" "''POST''" ?cs "''a=1&b=2''" can_b "''a=1&b=2&c=3''"] h
  show ?thesis by blast
qed

text \<open>
  Claim C4 says that keys with payload \<^verbatim>\<open>None\<close> are kept away from the token
  parser. The code does not filter them: \<^verbatim>\<open>canned_key_partial_subset\<close> returns
  the third component of every key of the url and method, and
  \<^verbatim>\<open>post_data_present\<close> then calls \<^verbatim>\<open>split\<close> on \<^verbatim>\<open>None\<close>.
  With both \<^verbatim>\<open>(u, POST, None)\<close> and \<^verbatim>\<open>(u, POST, a=1)\<close> registered, the
  request with payload \<^verbatim>\<open>a=1\<close> raises \<^verbatim>\<open>AttributeError\<close>, in either
  order of the keys and whatever the order of the dictionary of differences.
\<close>

theorem none_payload_reaches_parser:
  "canned_key_partial_subset (''u'', ''POST'')
     [(''u'', ''POST'', None), (''u'', ''POST'', Some ''a=1'')] = [None, Some ''a=1'']
   \<and> select_best_can e ''u'' ''POST'' (Some ''a=1'')
     [((''u'', ''POST'', None), can_a), ((''u'', ''POST'', Some ''a=1''), can_b)]
     = Inl (AttributeError ''NoneType object has no attribute split'')
   \<and> select_best_can e ''u'' ''POST'' (Some ''a=1'')
     [((''u'', ''POST'', Some ''a=1''), can_b), ((''u'', ''POST'', None), can_a)]
     = Inl (AttributeError ''NoneType object has no attribute split'')"
  by (simp add: select_best_can_def post_best_fit_def canned_key_partial_subset_def
      post_data_present_def setify_def py_split_def)

section \<open>Properties of navigation\<close>

text \<open>
  Claim C3 says that a request without canned match raises the offline error or goes
  to the network, with or without payload. With a payload the code does neither:
  \<^verbatim>\<open>post_best_fit\<close> raises \<^verbatim>\<open>IndexError\<close>, which the handler
  \<^verbatim>\<open>except KeyError\<close> of \<^verbatim>\<open>go\<close> does not catch, so the
  \<^verbatim>\<open>IndexError\<close> leaves \<^verbatim>\<open>go\<close> in both modes and no transfer is
  attempted. Without payload the lookup raises \<^verbatim>\<open>KeyError\<close> and the handler
  does what the claim says.
\<close>

theorem go_payload_without_match:
  "fst (go env_fwd fresh_browser ''http://x/f'' ''post'' (Some (Encoded ''a=1'')))
     = Inl (IndexError ''Could not choose from zero options for input data: a=1'')
   \<and> performs (snd (go env_fwd fresh_browser ''http://x/f'' ''post'' (Some (Encoded ''a=1'')))) = 0
   \<and> fst (go env_fwd (fresh_browser\<lparr>offline := True\<rparr>) ''http://x/f'' ''post''
            (Some (Encoded ''a=1'')))
     = Inl (IndexError ''Could not choose from zero options for input data: a=1'')
   \<and> fst (go env_fwd fresh_browser ''http://x/f'' ''get'' None) = Inr 200
   \<and> fst (go env_fwd (fresh_browser\<lparr>offline := True\<rparr>) ''http://x/f'' ''get'' None)
     = Inl (LookupError (''http://x/f'', ''GET'', None) [])"
  by code_simp

text \<open>
  Claim C6 says that a stored exception is raised as it is, whatever its type. The
  \<^verbatim>\<open>raise\<close> stands inside the \<^verbatim>\<open>try\<close> block whose handler catches
  \<^verbatim>\<open>KeyError\<close>: a stored \<^verbatim>\<open>KeyError\<close> is taken for a missing canned
  response, and \<^verbatim>\<open>go\<close> performs a transfer (or raises the offline
  \<^verbatim>\<open>LookupError\<close>) instead. A stored exception of another type is raised as
  it is, without any transfer.
\<close>

theorem go_scripted_keyerror:
  "fst (go env_fwd (fresh_browser\<lparr>canned_responses :=
          [((''http://x/'', ''GET'', None), can_keyerror)]\<rparr>) ''http://x/'' ''get'' None) = Inr 200
   \<and> performs (snd (go env_fwd (fresh_browser\<lparr>canned_responses :=
          [((''http://x/'', ''GET'', None), can_keyerror)]\<rparr>) ''http://x/'' ''get'' None)) = 1
   \<and> fst (go env_fwd (fresh_browser\<lparr>offline := True, canned_responses :=
          [((''http://x/'', ''GET'', None), can_keyerror)]\<rparr>) ''http://x/'' ''get'' None)
     = Inl (LookupError (''http://x/'', ''GET'', None) [(''http://x/'', ''GET'', None)])
   \<and> fst (go env_fwd (fresh_browser\<lparr>canned_responses :=
          [((''http://x/'', ''GET'', None), can_failure)]\<rparr>) ''http://x/'' ''get'' None)
     = Inl (Exception ''boom'')
   \<and> performs (snd (go env_fwd (fresh_browser\<lparr>canned_responses :=
          [((''http://x/'', ''GET'', None), can_failure)]\<rparr>) ''http://x/'' ''get'' None)) = 0"
  by code_simp

lemma setup_http_response_resets:
  assumes "setup_http_response e s u = (Inr c, s')"
  shows "form s' = None \<and> form_data_dict s' = [] \<and> tree s' = None"
proof -
  obtain exc s2 where l: "retry_loop e (s\<lparr>curl_url := u\<rparr>) (retries (s\<lparr>curl_url := u\<rparr>))
      (Some (Exception ''Dummy exception'')) = (exc, s2)"
    by (cases "retry_loop e (s\<lparr>curl_url := u\<rparr>) (retries (s\<lparr>curl_url := u\<rparr>))
      (Some (Exception ''Dummy exception''))") auto
  show ?thesis
  proof (cases exc)
    case None
    with assms l have "s' = (reset s2)\<lparr>roundtrip := Some (clock s2 - clock (s\<lparr>curl_url := u\<rparr>))\<rparr>"
      by (simp add: setup_http_response_def Let_def)
    then show ?thesis by (simp add: reset_def)
  next
    case (Some ex)
    with assms l show ?thesis by (simp add: setup_http_response_def Let_def)
  qed
qed

lemma go_except_resets:
  assumes "go_except e s u m d ex = (Inr c, s')"
  shows "form s' = None \<and> form_data_dict s' = [] \<and> tree s' = None"
proof (cases ex)
  case (KeyError a)
  with assms have "\<not> offline s" and "setup_http_response e s u = (Inr c, s')"
    by (auto simp: go_except_def split: if_splits)
  then show ?thesis using setup_http_response_resets by blast
qed (use assms in \<open>simp_all add: go_except_def\<close>)

text \<open>
  Claim C7. When \<^verbatim>\<open>go\<close> returns a status code, from a canned response or from
  the network, the selected form is \<^verbatim>\<open>None\<close>, the form data are empty and
  the parsed tree is cleared.
\<close>

theorem go_resets:
  assumes "go e s u m d = (Inr c, s')"
  shows "form s' = None \<and> form_data_dict s' = [] \<and> tree s' = None"
proof -
  obtain u1 d1 s1 where sd: "setup_data e (s\<lparr>buf := []\<rparr>) u (upper m) d = (u1, d1, s1)"
    by (cases "setup_data e (s\<lparr>buf := []\<rparr>) u (upper m) d") auto
  show ?thesis
  proof (cases "select_best_can e u1 (upper m) d1 (canned_responses s1)")
    case (Inl ex)
    with assms sd have "go_except e s1 u1 (upper m) d1 ex = (Inr c, s')"
      by (simp add: go_def)
    then show ?thesis by (rule go_except_resets)
  next
    case (Inr can)
    show ?thesis
    proof (cases "exception can")
      case (Some ex)
      with assms sd Inr have "go_except e s1 u1 (upper m) d1 ex = (Inr c, s')"
        by (simp add: go_def)
      then show ?thesis by (rule go_except_resets)
    next
      case None
      with assms sd Inr have "s' = snd (setup_canned_response s1 can u1)"
        by (auto simp: go_def split: prod.splits)
      then show ?thesis by (simp add: setup_canned_response_def reset_def)
    qed
  qed
qed

theorem go_resets_witness:
  "fst (go env_fwd (fresh_browser\<lparr>form := Some two_button_form, form_data_dict := [(''q'', Some ''cat'')],
          tree := Some \<lparr>page_forms = [two_button_form]\<rparr>,
          canned_responses := [((''http://x/'', ''GET'', None), can_a)]\<rparr>)
        ''http://x/'' ''get'' None) = Inr 200
   \<and> form (snd (go env_fwd (fresh_browser\<lparr>form := Some two_button_form, form_data_dict := [(''q'', Some ''cat'')],
          tree := Some \<lparr>page_forms = [two_button_form]\<rparr>,
          canned_responses := [((''http://x/'', ''GET'', None), can_a)]\<rparr>)
        ''http://x/'' ''get'' None)) = None
   \<and> form_data_dict (snd (go env_fwd (fresh_browser\<lparr>form := Some two_button_form, form_data_dict := [(''q'', Some ''cat'')],
          tree := Some \<lparr>page_forms = [two_button_form]\<rparr>,
          canned_responses := [((''http://x/'', ''GET'', None), can_a)]\<rparr>)
        ''http://x/'' ''get'' None)) = []
   \<and> tree (snd (go env_fwd (fresh_browser\<lparr>form := Some two_button_form, form_data_dict := [(''q'', Some ''cat'')],
          tree := Some \<lparr>page_forms = [two_button_form]\<rparr>,
          canned_responses := [((''http://x/'', ''GET'', None), can_a)]\<rparr>)
        ''http://x/'' ''get'' None)) = None"
proof -
  let ?r = "go env_fwd (fresh_browser\<lparr>form := Some two_button_form, form_data_dict := [(''q'', Some ''cat'')],
          tree := Some \<lparr>page_forms = [two_button_form]\<rparr>,
          canned_responses := [((''http://x/'', ''GET'', None), can_a)]\<rparr>)
        ''http://x/'' ''get'' None"
  have f: "fst ?r = Inr 200" by code_simp
  then have "?r = (Inr 200, snd ?r)" by (metis prod.collapse)
  from go_resets [OF this] f show ?thesis by simp
qed

lemma curl_perform_fails:
  assumes "failure (transport e (performs s)) = Some (n, msg)"
  shows "\<exists>s1. curl_perform e s = (Some (PycurlError n msg), s1) \<and> performs s1 = Suc (performs s)"
  using assms by (simp add: curl_perform_def Let_def)

lemma curl_perform_succeeds:
  assumes "failure (transport e (performs s)) = None"
  shows "\<exists>s1. curl_perform e s = (None, s1) \<and> performs s1 = Suc (performs s)
            \<and> response_code s1 = att_code (transport e (performs s))"
  using assms by (simp add: curl_perform_def Let_def)

lemma retry_loop_exhausts:
  assumes "\<forall>k \<le> N. failure (transport e (performs s + k)) \<noteq> None"
    and "failure (transport e (performs s + N)) = Some (n, msg)"
    and "exc \<noteq> None"
  shows "\<exists>s'. retry_loop e s (int N) exc = (Some (PycurlError n msg), s')
            \<and> performs s' = performs s + N + 1"
  using assms
proof (induction N arbitrary: s exc)
  case 0
  then have "failure (transport e (performs s)) = Some (n, msg)" by simp
  from curl_perform_fails [OF this] obtain s1
    where p: "curl_perform e s = (Some (PycurlError n msg), s1)" "performs s1 = Suc (performs s)"
    by blast
  have "retry_loop e s1 (- 1) (Some (PycurlError n msg)) = (Some (PycurlError n msg), s1)"
    by (simp add: retry_loop.simps)
  with p "0.prems"(3) show ?case by (simp add: retry_loop.simps [of e s 0])
next
  case (Suc N)
  from Suc.prems(1) have "failure (transport e (performs s + 0)) \<noteq> None" by blast
  then obtain n0 msg0 where "failure (transport e (performs s)) = Some (n0, msg0)" by auto
  from curl_perform_fails [OF this] obtain s1
    where p: "curl_perform e s = (Some (PycurlError n0 msg0), s1)" "performs s1 = Suc (performs s)"
    by blast
  have a: "\<forall>k \<le> N. failure (transport e (performs s1 + k)) \<noteq> None"
  proof (intro allI impI)
    fix k assume "k \<le> N"
    then have "Suc k \<le> Suc N" by simp
    with Suc.prems(1) have "failure (transport e (performs s + Suc k)) \<noteq> None" by blast
    with p(2) show "failure (transport e (performs s1 + k)) \<noteq> None" by simp
  qed
  from Suc.prems(2) p(2) have b: "failure (transport e (performs s1 + N)) = Some (n, msg)" by simp
  from Suc.IH [OF a b, of "Some (PycurlError n0 msg0)"] obtain s'
    where r: "retry_loop e s1 (int N) (Some (PycurlError n0 msg0)) = (Some (PycurlError n msg), s')"
      "performs s' = performs s1 + N + 1"
    by auto
  have "retry_loop e s (int (Suc N)) exc = retry_loop e s1 (int N) (Some (PycurlError n0 msg0))"
    using p(1) Suc.prems(3) by (subst retry_loop.simps) simp
  with r p(2) show ?case by simp
qed

lemma retry_loop_stops:
  assumes "j \<le> N"
    and "\<forall>k < j. failure (transport e (performs s + k)) \<noteq> None"
    and "failure (transport e (performs s + j)) = None"
    and "exc \<noteq> None"
  shows "\<exists>s'. retry_loop e s (int N) exc = (None, s') \<and> performs s' = performs s + j + 1
            \<and> response_code s' = att_code (transport e (performs s + j))"
  using assms
proof (induction j arbitrary: s N exc)
  case 0
  then have "failure (transport e (performs s)) = None" by simp
  from curl_perform_succeeds [OF this] obtain s1
    where p: "curl_perform e s = (None, s1)" "performs s1 = Suc (performs s)"
      "response_code s1 = att_code (transport e (performs s))"
    by blast
  have "retry_loop e s1 (int N - 1) None = (None, s1)"
    by (simp add: retry_loop.simps)
  with p "0.prems"(4) show ?case by (simp add: retry_loop.simps [of e s "int N"])
next
  case (Suc j)
  from Suc.prems(1) obtain M where M: "N = Suc M" by (cases N) auto
  from Suc.prems(2) have "failure (transport e (performs s + 0)) \<noteq> None" by blast
  then obtain n0 msg0 where "failure (transport e (performs s)) = Some (n0, msg0)" by auto
  from curl_perform_fails [OF this] obtain s1
    where p: "curl_perform e s = (Some (PycurlError n0 msg0), s1)" "performs s1 = Suc (performs s)"
    by blast
  have a: "\<forall>k < j. failure (transport e (performs s1 + k)) \<noteq> None"
  proof (intro allI impI)
    fix k assume "k < j"
    then have "Suc k < Suc j" by simp
    with Suc.prems(2) have "failure (transport e (performs s + Suc k)) \<noteq> None" by blast
    with p(2) show "failure (transport e (performs s1 + k)) \<noteq> None" by simp
  qed
  from Suc.prems(3) p(2) have b: "failure (transport e (performs s1 + j)) = None" by simp
  from Suc.prems(1) M have c: "j \<le> M" by simp
  from Suc.IH [OF c a b, of "Some (PycurlError n0 msg0)"] obtain s'
    where r: "retry_loop e s1 (int M) (Some (PycurlError n0 msg0)) = (None, s')"
      "performs s' = performs s1 + j + 1"
      "response_code s' = att_code (transport e (performs s1 + j))"
    by auto
  have "retry_loop e s (int N) exc = retry_loop e s1 (int M) (Some (PycurlError n0 msg0))"
    using p(1) Suc.prems(4) M by (subst retry_loop.simps) simp
  with r p(2) show ?case by simp
qed

text \<open>
  Claim C5. With a retry budget \<^verbatim>\<open>N >= 0\<close>: if the next \<^verbatim>\<open>N + 1\<close>
  transfers fail, \<^verbatim>\<open>_setup_http_response\<close> performs exactly \<^verbatim>\<open>N + 1\<close>
  of them and raises the error of the last one; if the first transfer to complete is
  the one after \<^verbatim>\<open>j <= N\<close> failures, exactly \<^verbatim>\<open>j + 1\<close> transfers are
  performed and the response code of that transfer is returned.
\<close>

theorem retry_budget:
  assumes budget: "retries s = int N"
  shows "((\<forall>k \<le> N. failure (transport e (performs s + k)) \<noteq> None) \<and>
          failure (transport e (performs s + N)) = Some (n, msg)
          \<longrightarrow> fst (setup_http_response e s u) = Inl (PycurlError n msg)
              \<and> performs (snd (setup_http_response e s u)) = performs s + N + 1)
       \<and> (j \<le> N \<and> (\<forall>k < j. failure (transport e (performs s + k)) \<noteq> None) \<and>
          failure (transport e (performs s + j)) = None
          \<longrightarrow> fst (setup_http_response e s u) = Inr (att_code (transport e (performs s + j)))
              \<and> performs (snd (setup_http_response e s u)) = performs s + j + 1)"
proof (intro conjI impI)
  let ?s1 = "s\<lparr>curl_url := u\<rparr>"
  assume h: "(\<forall>k \<le> N. failure (transport e (performs s + k)) \<noteq> None) \<and>
          failure (transport e (performs s + N)) = Some (n, msg)"
  then have "\<forall>k \<le> N. failure (transport e (performs ?s1 + k)) \<noteq> None"
    and "failure (transport e (performs ?s1 + N)) = Some (n, msg)" by simp_all
  from retry_loop_exhausts [OF this, of "Some (Exception ''Dummy exception'')"] obtain s'
    where "retry_loop e ?s1 (int N) (Some (Exception ''Dummy exception'')) = (Some (PycurlError n msg), s')"
      "performs s' = performs s + N + 1" by auto
  with budget have r: "setup_http_response e s u = (Inl (PycurlError n msg), s')"
    by (simp add: setup_http_response_def Let_def)
  from r show "fst (setup_http_response e s u) = Inl (PycurlError n msg)" by simp
  from r \<open>performs s' = performs s + N + 1\<close>
  show "performs (snd (setup_http_response e s u)) = performs s + N + 1" by simp
next
  let ?s1 = "s\<lparr>curl_url := u\<rparr>"
  assume h: "j \<le> N \<and> (\<forall>k < j. failure (transport e (performs s + k)) \<noteq> None) \<and>
          failure (transport e (performs s + j)) = None"
  then have "j \<le> N" and "\<forall>k < j. failure (transport e (performs ?s1 + k)) \<noteq> None"
    and "failure (transport e (performs ?s1 + j)) = None" by simp_all
  from retry_loop_stops [OF this, of "Some (Exception ''Dummy exception'')"] obtain s'
    where l: "retry_loop e ?s1 (int N) (Some (Exception ''Dummy exception'')) = (None, s')"
      "performs s' = performs s + j + 1"
      "response_code s' = att_code (transport e (performs s + j))" by auto
  with budget have r: "setup_http_response e s u =
      (Inr (att_code (transport e (performs s + j))),
       (reset s')\<lparr>roundtrip := Some (clock s' - clock s)\<rparr>)"
    by (simp add: setup_http_response_def Let_def reset_def)
  from r show "fst (setup_http_response e s u) = Inr (att_code (transport e (performs s + j)))"
    by simp
  from r l(2) show "performs (snd (setup_http_response e s u)) = performs s + j + 1"
    by (simp add: reset_def)
qed

theorem retry_budget_witness:
  "fst (setup_http_response env_down (fresh_browser\<lparr>retries := 2\<rparr>) ''http://x/'')
     = Inl (PycurlError 7 ''refused'')
   \<and> performs (snd (setup_http_response env_down (fresh_browser\<lparr>retries := 2\<rparr>) ''http://x/'')) = 3
   \<and> fst (setup_http_response env_flaky (fresh_browser\<lparr>retries := 2\<rparr>) ''http://x/'') = Inr 200
   \<and> performs (snd (setup_http_response env_flaky (fresh_browser\<lparr>retries := 2\<rparr>) ''http://x/'')) = 2"
proof -
  have b: "retries (fresh_browser\<lparr>retries := 2\<rparr>) = int 2" by simp
  have p: "performs (fresh_browser\<lparr>retries := 2\<rparr>) = 0" by (simp add: fresh_browser_def)
  have d: "(\<forall>k \<le> (2::nat). failure (transport env_down (performs (fresh_browser\<lparr>retries := 2\<rparr>) + k)) \<noteq> None) \<and>
          failure (transport env_down (performs (fresh_browser\<lparr>retries := 2\<rparr>) + 2)) = Some (7, ''refused'')"
    by (simp add: env_down_def bad_attempt_def)
  have f: "1 \<le> (2::nat) \<and> (\<forall>k < (1::nat). failure (transport env_flaky (performs (fresh_browser\<lparr>retries := 2\<rparr>) + k)) \<noteq> None) \<and>
          failure (transport env_flaky (performs (fresh_browser\<lparr>retries := 2\<rparr>) + 1)) = None"
    by (simp add: env_flaky_def bad_attempt_def ok_attempt_def p)
  have c: "att_code (transport env_flaky (performs (fresh_browser\<lparr>retries := 2\<rparr>) + 1)) = 200"
    by (simp add: env_flaky_def ok_attempt_def p)
  from retry_budget [OF b, of env_down 7 "''refused''" "''http://x/''" 1] d p
  have 1: "fst (setup_http_response env_down (fresh_browser\<lparr>retries := 2\<rparr>) ''http://x/'')
     = Inl (PycurlError 7 ''refused'')
   \<and> performs (snd (setup_http_response env_down (fresh_browser\<lparr>retries := 2\<rparr>) ''http://x/'')) = 3"
    by simp
  from retry_budget [OF b, of env_flaky 7 "''refused''" "''http://x/''" 1] f c p
  have 2: "fst (setup_http_response env_flaky (fresh_browser\<lparr>retries := 2\<rparr>) ''http://x/'') = Inr 200
   \<and> performs (snd (setup_http_response env_flaky (fresh_browser\<lparr>retries := 2\<rparr>) ''http://x/'')) = 2"
    by simp
  from 1 2 show ?thesis by simp
qed

section \<open>Properties of form submission\<close>

lemma selected_form_chosen:
  assumes "form s = Some f"
  shows "selected_form e s = (Inr f, s)"
  using assms by (simp add: selected_form_def)

lemma form_submits_chosen:
  assumes "form s = Some f" and "submit_inputs f \<noteq> []"
  shows "form_submits e s =
           (Inr (map (\<lambda>(i, b). \<lparr>number = i, item_name = input_name b, item_value = input_value b\<rparr>)
                     (enumerate 0 (submit_inputs f))), s)"
  using assms by (simp add: form_submits_def selected_form_chosen)

lemma form_submits_none:
  assumes "form s = Some f" and "submit_inputs f = []"
  shows "form_submits e s =
           (Inl (AssertionError ''The selected form must contain a submit button''), s)"
  using assms by (simp add: form_submits_def selected_form_chosen)

lemma form_data_update_single:
  assumes "form s = Some f" and "n \<noteq> ''self''"
  shows "form_data_update e s [(n, v)] =
           (Inr (), s\<lparr>form_data_dict := dict_set n v (form_data_dict s)\<rparr>)"
  using assms by (simp add: form_data_update_def selected_form_chosen)




lemma dict_order_empty:
  assumes "order_ok e"
  shows "dict_order e [] = []"
proof -
  from assms have "set (dict_order e []) = set []" unfolding order_ok_def by blast
  then show ?thesis by simp
qed

lemma select_best_can_empty:
  assumes "order_ok e"
  shows "select_best_can e u m (Some d) [] =
           Inl (IndexError (''Could not choose from zero options for input data: '' @ d))"
  using dict_order_empty [OF assms]
  by (simp add: select_best_can_def canned_key_partial_subset_def post_best_fit_def)

lemma go_without_canned_responses:
  assumes ok: "order_ok e" and none: "canned_responses s = []"
  shows "fst (go e s u m (Some (Fields d))) =
           Inl (IndexError (''Could not choose from zero options for input data: '' @ urlencode e d))
       \<and> performs (snd (go e s u m (Some (Fields d)))) = performs s"
proof -
  obtain u1 d1 s1 where sd: "setup_data e (s\<lparr>buf := []\<rparr>) u (upper m) (Some (Fields d)) = (u1, d1, s1)"
    by (cases "setup_data e (s\<lparr>buf := []\<rparr>) u (upper m) (Some (Fields d))") auto
  then have d1: "d1 = Some (urlencode e d)" and c: "canned_responses s1 = canned_responses s"
    and p: "performs s1 = performs s"
    by (auto simp: setup_data_def escape_data_def Let_def split: if_splits)
  from select_best_can_empty [OF ok] none c d1
  have "select_best_can e u1 (upper m) d1 (canned_responses s1) =
          Inl (IndexError (''Could not choose from zero options for input data: '' @ urlencode e d))"
    by simp
  with sd have "go e s u m (Some (Fields d)) =
      (Inl (IndexError (''Could not choose from zero options for input data: '' @ urlencode e d)), s1)"
    by (simp add: go_def go_except_def)
  with p show ?thesis by simp
qed

lemma order_ok_serving: "order_ok (env_serving source)"
  by (simp add: order_ok_def env_serving_def)

text \<open>
  Claim C8 says that a submit with exactly one submit button and no selector succeeds,
  that with two or more buttons and no selector it fails with the assertion that an
  explicit choice must be passed, and that with no button it fails with the assertion
  that the form must contain a submit button. The two failures are as the claim says.
  The success is not reached: \<^verbatim>\<open>form_submit\<close> always hands a payload to
  \<^verbatim>\<open>go\<close>, so when no canned response is registered \<^verbatim>\<open>post_best_fit\<close>
  raises \<^verbatim>\<open>IndexError\<close>, which \<^verbatim>\<open>go\<close> does not catch (the defect of
  claim C3), and no transfer is attempted, whatever the server would answer.
\<close>

theorem form_submit_buttons:
  assumes chosen: "form s = Some f"
  shows "(\<forall>b. submit_inputs f = [b] \<and> input_name b \<noteq> Some ''self'' \<and>
              order_ok e \<and> canned_responses s = [] \<longrightarrow>
            fst (form_submit e s None) =
              Inl (IndexError (''Could not choose from zero options for input data: '' @
                     urlencode e
                       (case input_name b of
                          None \<Rightarrow> form_data_dict s
                        | Some n \<Rightarrow>
                            dict_set n (Some (case input_value b of Some v \<Rightarrow> v | None \<Rightarrow> []))
                              (form_data_dict s))))
          \<and> performs (snd (form_submit e s None)) = performs s)
       \<and> (2 \<le> length (submit_inputs f) \<longrightarrow>
            form_submit e s None =
              (Inl (AssertionError
                 ''Implicit submit is not possible; an explicit choice must be passed''), s))
       \<and> (submit_inputs f = [] \<longrightarrow>
            form_submit e s sel =
              (Inl (AssertionError ''The selected form must contain a submit button''), s))"
proof (intro conjI allI impI)
  fix b
  assume h: "submit_inputs f = [b] \<and> input_name b \<noteq> Some ''self'' \<and>
              order_ok e \<and> canned_responses s = []"
  then have one: "submit_inputs f = [b]" and kw: "input_name b \<noteq> Some ''self''"
    and ok: "order_ok e" and none: "canned_responses s = []" by simp_all
  let ?it = "\<lparr>number = 0, item_name = input_name b, item_value = input_value b\<rparr>"
  let ?d = "case input_name b of
              None \<Rightarrow> form_data_dict s
            | Some n \<Rightarrow>
                dict_set n (Some (case input_value b of Some v \<Rightarrow> v | None \<Rightarrow> []))
                  (form_data_dict s)"
  let ?s1 = "s\<lparr>form_data_dict := ?d\<rparr>"
  from chosen one have fs: "form_submits e s = (Inr [?it], s)"
    by (simp add: form_submits_chosen)
  have ch: "choose_submit [?it] None = Inr ?it"
    by (simp add: choose_submit_def py_index_def)
  have pr: "press_submit e s [?it] None = (Inr (), ?s1)"
  proof (cases "input_name b")
    case None
    with ch show ?thesis by (simp add: press_submit_def)
  next
    case (Some n)
    with kw have "n \<noteq> ''self''" by simp
    from form_data_update_single [OF chosen this] Some ch show ?thesis
      by (simp add: press_submit_def)
  qed
  from chosen fs pr
  have eq: "form_submit e s None =
          go e ?s1 (case form_action f of Some a \<Rightarrow> a | None \<Rightarrow> url ?s1) (form_method f)
            (Some (Fields ?d))"
    by (simp add: form_submit_def selected_form_chosen form_submit_data_def)
  from none have none1: "canned_responses ?s1 = []" by simp
  from go_without_canned_responses [OF ok none1] eq
  show "fst (form_submit e s None) =
          Inl (IndexError (''Could not choose from zero options for input data: '' @ urlencode e ?d))"
    and "performs (snd (form_submit e s None)) = performs s"
    by simp_all
next
  assume two: "2 \<le> length (submit_inputs f)"
  then have "submit_inputs f \<noteq> []" by auto
  from form_submits_chosen [OF chosen this] chosen two
  show "form_submit e s None =
          (Inl (AssertionError
             ''Implicit submit is not possible; an explicit choice must be passed''), s)"
    by (simp add: form_submit_def selected_form_chosen)
next
  assume "submit_inputs f = []"
  from form_submits_none [OF chosen this] chosen
  show "form_submit e s sel =
          (Inl (AssertionError ''The selected form must contain a submit button''), s)"
    by (simp add: form_submit_def selected_form_chosen)
qed

theorem form_submit_buttons_witness:
  "fst (go (env_serving ''<form one>'') fresh_browser ''http://x/page'' ''get'' None) = Inr 200
   \<and> fst (form_select (env_serving ''<form one>'') (visited ''<form one>'') (Some (Index 0))) = Inr ()
   \<and> fst (form_submit (env_serving ''<form one>'') (with_form ''<form one>'') None)
       = Inl (IndexError ''Could not choose from zero options for input data: go='')
   \<and> performs (snd (form_submit (env_serving ''<form one>'') (with_form ''<form one>'') None))
       = performs (with_form ''<form one>'')
   \<and> fst (form_submit (env_serving ''<form one>'')
            (add_canned_response (env_serving ''<form one>'') (with_form ''<form one>'')
               can_b ''http://x/page'' ''POST'' (Some (Encoded ''go=''))) None)
       = Inr (code can_b)
   \<and> form_submit env_fwd (fresh_browser\<lparr>form := Some two_button_form\<rparr>) None
     = (Inl (AssertionError
          ''Implicit submit is not possible; an explicit choice must be passed''),
        fresh_browser\<lparr>form := Some two_button_form\<rparr>)
   \<and> form_submit env_fwd (fresh_browser\<lparr>form := Some no_button_form\<rparr>) None
     = (Inl (AssertionError ''The selected form must contain a submit button''),
        fresh_browser\<lparr>form := Some no_button_form\<rparr>)"
proof -
  let ?e = "env_serving ''<form one>''"
  let ?s = "with_form ''<form one>''"
  let ?b = "\<lparr>input_name = Some ''go'', input_value = None\<rparr>"
  have g: "fst (go ?e fresh_browser ''http://x/page'' ''get'' None) = Inr 200" by code_simp
  have sel: "fst (form_select ?e (visited ''<form one>'') (Some (Index 0))) = Inr ()" by code_simp
  have 1: "form ?s = Some one_button_form" by code_simp
  have h: "submit_inputs one_button_form = [?b] \<and> input_name ?b \<noteq> Some ''self'' \<and>
             order_ok ?e \<and> canned_responses ?s = []"
  proof (intro conjI)
    show "submit_inputs one_button_form = [?b]" by (simp add: one_button_form_def)
    show "input_name ?b \<noteq> Some ''self''" by simp
    show "order_ok ?e" by (rule order_ok_serving)
    show "canned_responses ?s = []" by code_simp
  qed
  have enc: "urlencode ?e (case input_name ?b of
                          None \<Rightarrow> form_data_dict ?s
                        | Some n \<Rightarrow>
                            dict_set n (Some (case input_value ?b of Some v \<Rightarrow> v | None \<Rightarrow> []))
                              (form_data_dict ?s)) = ''go=''"
    by code_simp
  have 2: "form (fresh_browser\<lparr>form := Some two_button_form\<rparr>) = Some two_button_form"
    and 0: "form (fresh_browser\<lparr>form := Some no_button_form\<rparr>) = Some no_button_form"
    by simp_all
  from form_submit_buttons [OF 1, of ?e None] h enc
  have a: "fst (form_submit ?e ?s None)
       = Inl (IndexError ''Could not choose from zero options for input data: go='')
     \<and> performs (snd (form_submit ?e ?s None)) = performs ?s"
    by simp
  from form_submit_buttons [OF 2, of env_fwd None]
  have b: "form_submit env_fwd (fresh_browser\<lparr>form := Some two_button_form\<rparr>) None
     = (Inl (AssertionError
          ''Implicit submit is not possible; an explicit choice must be passed''),
        fresh_browser\<lparr>form := Some two_button_form\<rparr>)"
    by (simp add: two_button_form_def)
  from form_submit_buttons [OF 0, of env_fwd None]
  have c: "form_submit env_fwd (fresh_browser\<lparr>form := Some no_button_form\<rparr>) None
     = (Inl (AssertionError ''The selected form must contain a submit button''),
        fresh_browser\<lparr>form := Some no_button_form\<rparr>)"
    by (simp add: no_button_form_def)
  have pos: "fst (form_submit ?e
            (add_canned_response ?e ?s can_b ''http://x/page'' ''POST''
               (Some (Encoded ''go=''))) None) = Inr (code can_b)"
    by code_simp
  from g sel a pos b c show ?thesis by simp
qed

text \<open>
  Claim C9 says that the pair of the resolved button is merged into the form data and
  that no pair of another submit button is in the payload. On the page whose form has
  the buttons \<^verbatim>\<open>save\<close> and \<^verbatim>\<open>delete\<close>, \<^verbatim>\<open>form_select(0)\<close>
  copies both pairs from the fields of the form into the form data, and
  \<^verbatim>\<open>form_submit('delete')\<close> only sets the pair of the chosen button again: the
  body sent is \<^verbatim>\<open>save=Save&delete=Delete\<close>, and of two canned responses the
  one registered for the payload with both pairs answers.
\<close>

theorem form_submit_sends_other_button:
  "fst (go (env_serving ''<form two>'') fresh_browser ''http://x/page'' ''get'' None) = Inr 200
   \<and> fst (form_select (env_serving ''<form two>'') (visited ''<form two>'') (Some (Index 0))) = Inr ()
   \<and> form (with_form ''<form two>'') = Some two_button_form
   \<and> form_data_dict (with_form ''<form two>'')
       = [(''save'', Some ''Save''), (''delete'', Some ''Delete'')]
   \<and> curl_postfields (snd (form_submit (env_serving ''<form two>'') (with_form ''<form two>'')
                              (Some (Name ''delete''))))
       = Some ''save=Save&delete=Delete''
   \<and> fst (form_submit (env_serving ''<form two>'')
            (add_canned_response (env_serving ''<form two>'')
               (add_canned_response (env_serving ''<form two>'') (with_form ''<form two>'')
                  can_a ''http://x/edit'' ''POST'' (Some (Encoded ''delete=Delete'')))
               can_b ''http://x/edit'' ''POST'' (Some (Encoded ''save=Save&delete=Delete'')))
            (Some (Name ''delete''))) = Inr (code can_b)
   \<and> code can_a \<noteq> code can_b"
  by code_simp



end
